theory Spec2Isabelle
  imports Main "HOL-Library.Sublist"
begin

section \<open>The paginated sequence engine (src/resource-stream.ts)\<close>

text \<open>
  The class \<^verbatim>\<open>ResourceStream\<close> is embedded as a record of its fields, its methods as
  functions from a state to the next state. Everything the class does to the outside
  (pushing an item, destroying the stream, calling the request function, scheduling
  a deferred \<^verbatim>\<open>_read\<close> with \<^verbatim>\<open>setImmediate\<close>, calling \<^verbatim>\<open>super.end\<close>) is logged in
  additional fields of the record, so that it can be observed.
\<close>

subsection \<open>Data\<close>

text \<open>
  A JavaScript number as the class uses it: an integer-valued IEEE 754 double or
  \<^verbatim>\<open>Infinity\<close>. The arguments \<^verbatim>\<open>maxApiCalls\<close> and \<^verbatim>\<open>maxResults\<close> are integers, -1 by
  default.
\<close>

datatype jsnum = Fin int | Infinity

text \<open>
  Not every integer is a double, and one that is not never is the value of a field. A
  double has 53 significant bits: every integer up to \<open>2 ^ 53\<close> in magnitude is one, and
  above, a double is a multiple of its unit in the last place, which is 2 from \<open>2 ^ 53\<close>
  on, 4 from \<open>2 ^ 54\<close> on, and so on.
\<close>

function ulp :: "nat \<Rightarrow> nat" where
  "ulp m = (if m < 2 ^ 53 then 1 else 2 * ulp (m div 2))"
  by pat_completeness auto
termination
  by (relation "measure id") auto

text \<open>
  The result of \<^verbatim>\<open>+\<close> and \<^verbatim>\<open>-\<close> on doubles is the double nearest to the exact result, and of
  two nearest ones the one whose last significant bit is 0. The results that occur here
  are far from the largest double: the budget goes down towards 0, and the counter goes
  up from 0 by ones.
\<close>

definition nearest_double_nat :: "nat \<Rightarrow> nat" where
  "nearest_double_nat m =
     (let u = ulp m; q = m div u; r = m mod u
      in if 2 * r < u then q * u
         else if u < 2 * r then (q + 1) * u
         else if even q then q * u else (q + 1) * u)"

definition nearest_double :: "int \<Rightarrow> int" where
  "nearest_double x =
     (if x < 0 then - int (nearest_double_nat (nat (- x))) else int (nearest_double_nat (nat x)))"

text \<open>
  The cursor \<^verbatim>\<open>{} | null\<close>: \<open>None\<close> is \<^verbatim>\<open>null\<close> or \<^verbatim>\<open>undefined\<close>, \<open>Some m\<close> is an object with
  the entries \<open>m\<close> (in insertion order); \<open>Some []\<close> is the empty object \<^verbatim>\<open>{}\<close>.
\<close>

type_synonym 'q cursor = "(string \<times> 'q) list option"

text \<open>The fields of \<^verbatim>\<open>ParsedArguments\<close> that the constructor reads.\<close>

record 'q parsed_arguments =
  args_maxApiCalls :: int
  args_maxResults :: int
  args_query :: "'q cursor"

text \<open>
  The instance. The first six fields are the fields of the class (\<^verbatim>\<open>_ended\<close>,
  \<^verbatim>\<open>_maxApiCalls\<close>, \<^verbatim>\<open>_nextQuery\<close>, \<^verbatim>\<open>_reading\<close>, \<^verbatim>\<open>_requestsMade\<close>, \<^verbatim>\<open>_resultsToSend\<close>;
  \<^verbatim>\<open>_requestFn\<close> is the environment). The others log the effects:
  \<^item> \<open>pushed\<close>: the items given to \<^verbatim>\<open>this.push\<close>, in order;
  \<^item> \<open>destroyedWith\<close>: the errors given to \<^verbatim>\<open>this.destroy\<close>, in order;
  \<^item> \<open>endCalls\<close>: the number of calls of \<^verbatim>\<open>super.end\<close>;
  \<^item> \<open>requests\<close>: the queries given to \<^verbatim>\<open>this._requestFn\<close>, in order;
  \<^item> \<open>immediates\<close>: the callbacks \<^verbatim>\<open>() => this._read()\<close> given to \<^verbatim>\<open>setImmediate\<close>
    that have not run yet;
  \<^item> \<open>outstanding\<close>: the calls of \<^verbatim>\<open>_requestFn\<close> whose handler has not been invoked yet.
\<close>

record ('a, 'q, 'e) resource_stream =
  ended :: bool
  maxApiCalls :: jsnum
  nextQuery :: "'q cursor"
  reading :: bool
  requestsMade :: nat
  resultsToSend :: jsnum
  pushed :: "'a list"
  destroyedWith :: "'e list"
  endCalls :: nat
  requests :: "'q cursor list"
  immediates :: nat
  outstanding :: nat

text \<open>
  What a call of \<^verbatim>\<open>_requestFn\<close> does at once: it returns (and its handler is invoked
  later, or was invoked before it returned), or it throws.
\<close>

datatype 'e call_outcome = Returns | Throws 'e

text \<open>
  The consumer, seen from \<^verbatim>\<open>this.push(result)\<close>: given all the items pushed so far, the
  last one being \<^verbatim>\<open>result\<close>, the value that \<^verbatim>\<open>push\<close> returns (the consumer wants more)
  and whether a listener called \<^verbatim>\<open>end()\<close> on the stream during the push.
\<close>

type_synonym 'a consumer = "'a list \<Rightarrow> bool \<times> bool"

subsection \<open>Operations\<close>

text \<open>Lines 38 to 49.\<close>

definition constructor :: "'q parsed_arguments \<Rightarrow> ('a, 'q, 'e) resource_stream" where
  "constructor args =
     \<lparr> ended = False,
       maxApiCalls = (if args_maxApiCalls args = -1 then Infinity else Fin (args_maxApiCalls args)),
       nextQuery = args_query args,
       reading = False,
       requestsMade = 0,
       resultsToSend = (if args_maxResults args = -1 then Infinity else Fin (args_maxResults args)),
       pushed = [],
       destroyedWith = [],
       endCalls = 0,
       requests = [],
       immediates = 0,
       outstanding = 0 \<rparr>"

text \<open>Lines 51 to 54: \<^verbatim>\<open>end\<close> sets the flag and calls \<^verbatim>\<open>super.end\<close>.\<close>

definition end_stream :: "('a, 'q, 'e) resource_stream \<Rightarrow> ('a, 'q, 'e) resource_stream" where
  "end_stream s = s\<lparr>ended := True, endCalls := Suc (endCalls s)\<rparr>"

text \<open>\<^verbatim>\<open>this.destroy(err)\<close>, of the stream library: logged.\<close>

definition destroy :: "('a, 'q, 'e) resource_stream \<Rightarrow> 'e \<Rightarrow> ('a, 'q, 'e) resource_stream" where
  "destroy s err = s\<lparr>destroyedWith := destroyedWith s @ [err]\<rparr>"

text \<open>
  \<^verbatim>\<open>this.push(result)\<close>, of the stream library: the item is delivered, the listeners
  run (one of them may call \<^verbatim>\<open>end()\<close>), and the call returns whether more is wanted.
\<close>

definition push :: "'a consumer \<Rightarrow> ('a, 'q, 'e) resource_stream \<Rightarrow> 'a \<Rightarrow>
    ('a, 'q, 'e) resource_stream \<times> bool" where
  "push c s result =
     (let s1 = s\<lparr>pushed := pushed s @ [result]\<rparr>
      in ((if snd (c (pushed s1)) then end_stream s1 else s1), fst (c (pushed s1))))"

text \<open>
  \<^verbatim>\<open>results.splice(0, n)\<close> returns the first \<open>n\<close> elements, none when \<open>n\<close> is negative,
  all of them when there are fewer.
\<close>

definition splice0 :: "'a list \<Rightarrow> int \<Rightarrow> 'a list" where
  "splice0 results n = take (nat n) results"

text \<open>
  Lines 72 to 75: the items that are kept, and the budget after them.
  \<^verbatim>\<open>
  if (this._resultsToSend !== Infinity) {
    results = results.splice(0, this._resultsToSend);
    this._resultsToSend -= results.length;
  }
  \<close>
\<close>

fun retained :: "jsnum \<Rightarrow> 'a list \<Rightarrow> 'a list" where
  "retained Infinity results = results"
| "retained (Fin r) results = splice0 results r"

fun budget_after :: "jsnum \<Rightarrow> 'a list \<Rightarrow> jsnum" where
  "budget_after Infinity results = Infinity"
| "budget_after (Fin r) results = Fin (nearest_double (r - int (length (splice0 results r))))"

text \<open>
  Lines 77 to 84: the loop over the retained items; \<open>more'\<close> is the variable \<^verbatim>\<open>more\<close>.
  \<^verbatim>\<open>
  let more = true;
  for (const result of results) {
    if (this._ended) { break; }
    more = this.push(result);
  }
  \<close>
\<close>

fun emit :: "'a consumer \<Rightarrow> ('a, 'q, 'e) resource_stream \<Rightarrow> bool \<Rightarrow> 'a list \<Rightarrow>
    ('a, 'q, 'e) resource_stream \<times> bool" where
  "emit c s more' [] = (s, more')"
| "emit c s more' (result # results) =
     (if ended s then (s, more')
      else emit c (fst (push c s result)) (snd (push c s result)) results)"

text \<open>\<^verbatim>\<open>!this._nextQuery\<close>: only \<^verbatim>\<open>null\<close> and \<^verbatim>\<open>undefined\<close> are falsy, every object is truthy.\<close>

fun truthy :: "'q cursor \<Rightarrow> bool" where
  "truthy None = False"
| "truthy (Some m) = True"

text \<open>\<^verbatim>\<open>++this._requestsMade\<close>: the counter plus one, as a double.\<close>

definition increment :: "nat \<Rightarrow> nat" where
  "increment m = nearest_double_nat (m + 1)"

text \<open>\<^verbatim>\<open>this._resultsToSend < 1\<close> and \<^verbatim>\<open>this._requestsMade >= this._maxApiCalls\<close>.\<close>

fun less_than_one :: "jsnum \<Rightarrow> bool" where
  "less_than_one Infinity = False"
| "less_than_one (Fin r) = (r < 1)"

fun at_least :: "nat \<Rightarrow> jsnum \<Rightarrow> bool" where
  "at_least m Infinity = False"
| "at_least m (Fin n) = (n \<le> int m)"

text \<open>
  Lines 64 to 98: the handler given to \<^verbatim>\<open>_requestFn\<close>. It is declared with three
  parameters, \<^verbatim>\<open>(err, results, nextQuery)\<close>; the values a caller passes after them
  (\<open>otherArgs\<close>) are bound to nothing.
\<close>

definition handler :: "'a consumer \<Rightarrow> ('a, 'q, 'e) resource_stream \<Rightarrow> 'e option \<Rightarrow> 'a list \<Rightarrow>
    'q cursor \<Rightarrow> 'x list \<Rightarrow> ('a, 'q, 'e) resource_stream" where
  "handler c s err results nq otherArgs =
     (case err of
        Some e \<Rightarrow> destroy s e
      | None \<Rightarrow>
         (let s1 = s\<lparr>nextQuery := nq\<rparr>;
              results1 = retained (resultsToSend s1) results;
              s2 = s1\<lparr>resultsToSend := budget_after (resultsToSend s1) results\<rparr>;
              s3 = fst (emit c s2 True results1);
              more' = snd (emit c s2 True results1);
              isFinished = (\<not> truthy (nextQuery s3) \<or> less_than_one (resultsToSend s3));
              s4 = s3\<lparr>requestsMade := increment (requestsMade s3)\<rparr>;
              madeMaxCalls = at_least (requestsMade s4) (maxApiCalls s4);
              s5 = (if isFinished \<or> madeMaxCalls then end_stream s4 else s4);
              s6 = (if more' \<and> \<not> ended s5 then s5\<lparr>immediates := Suc (immediates s5)\<rparr> else s5)
          in s6\<lparr>reading := False\<rparr>))"

text \<open>
  Lines 55 to 100: \<^verbatim>\<open>_read\<close>. The second component is the exception that leaves
  \<^verbatim>\<open>_read\<close>, if any: the call of \<^verbatim>\<open>_requestFn\<close> is in no \<^verbatim>\<open>try\<close> block.
\<close>

definition read :: "('a, 'q, 'e) resource_stream \<Rightarrow> 'e call_outcome \<Rightarrow>
    ('a, 'q, 'e) resource_stream \<times> 'e option" where
  "read s outcome =
     (if reading s then (s, None)
      else
        (let s1 = s\<lparr>reading := True\<rparr>;
             s2 = s1\<lparr>requests := requests s1 @ [nextQuery s1]\<rparr>
         in (case outcome of
               Returns \<Rightarrow> (s2\<lparr>outstanding := Suc (outstanding s2)\<rparr>, None)
             | Throws e \<Rightarrow> (s2, Some e))))"

subsection \<open>The event loop\<close>

text \<open>
  What can happen to an instance, one event at a time:
  \<^item> \<open>Pull\<close>: the stream library calls \<^verbatim>\<open>_read()\<close> (the consumer wants data). The
    library's \<^verbatim>\<open>Readable.read\<close> makes the call in a \<^verbatim>\<open>try\<close> block of its own and gives
    what it catches to \<^verbatim>\<open>destroy\<close>;
  \<^item> \<open>Tick\<close>: a pending \<^verbatim>\<open>setImmediate\<close> callback runs and calls \<^verbatim>\<open>_read()\<close>, directly:
    an exception leaves the callback, and nothing of the class sees it;
  \<^item> \<open>Respond\<close>: an outstanding call of the request function invokes its handler,
    once, with \<^verbatim>\<open>(err, results, nextQuery, ...otherArgs)\<close>;
  \<^item> \<open>End\<close>: the consumer calls \<^verbatim>\<open>end()\<close>.
  A \<open>Tick\<close> with no pending callback and a \<open>Respond\<close> with no outstanding call do not
  happen: they leave the state as it is.
\<close>

datatype ('a, 'q, 'e, 'x) event =
    Pull "'e call_outcome"
  | Tick "'e call_outcome"
  | Respond "'e option" "'a list" "'q cursor" "'x list"
  | End

fun step :: "'a consumer \<Rightarrow> ('a, 'q, 'e) resource_stream \<Rightarrow> ('a, 'q, 'e, 'x) event \<Rightarrow>
    ('a, 'q, 'e) resource_stream" where
  "step c s (Pull outcome) =
     (case snd (read s outcome) of
        None \<Rightarrow> fst (read s outcome)
      | Some e \<Rightarrow> destroy (fst (read s outcome)) e)"
| "step c s (Tick outcome) =
     (if immediates s = 0 then s
      else fst (read (s\<lparr>immediates := immediates s - 1\<rparr>) outcome))"
| "step c s (Respond err results nq otherArgs) =
     (if outstanding s = 0 then s
      else handler c (s\<lparr>outstanding := outstanding s - 1\<rparr>) err results nq otherArgs)"
| "step c s End = end_stream s"

definition run :: "'a consumer \<Rightarrow> ('a, 'q, 'e) resource_stream \<Rightarrow> ('a, 'q, 'e, 'x) event list \<Rightarrow>
    ('a, 'q, 'e) resource_stream" where
  "run c s evs = foldl (step c) s evs"

text \<open>A consumer that always wants more and never ends the stream.\<close>

definition greedy :: "'a consumer" where
  "greedy h = (True, False)"

text \<open>A consumer that always wants more and ends the stream when it sees the item \<open>x\<close>.\<close>

definition ends_on :: "'a \<Rightarrow> 'a consumer" where
  "ends_on x h = (True, h \<noteq> [] \<and> last h = x)"


subsection \<open>Invariants of the event loop\<close>

text \<open>
  At most one call of the request function is outstanding, it is outstanding only while
  \<open>reading\<close> is set, and after a call of \<^verbatim>\<open>destroy\<close> the flag stays set with no call
  outstanding.
\<close>

definition flight_ok :: "('a, 'q, 'e) resource_stream \<Rightarrow> bool" where
  "flight_ok s = (outstanding s \<le> 1 \<and> (outstanding s = 1 \<longrightarrow> reading s) \<and>
     (destroyedWith s \<noteq> [] \<longrightarrow> reading s \<and> outstanding s = 0))"

text \<open>
  With a finite budget: it is not negative, and the items pushed so far together with
  the budget that is left do not exceed \<open>k\<close>.
\<close>

definition within_budget :: "int \<Rightarrow> ('a, 'q, 'e) resource_stream \<Rightarrow> bool" where
  "within_budget k s =
     (case resultsToSend s of Infinity \<Rightarrow> False
      | Fin r \<Rightarrow> 0 \<le> r \<and> int (length (pushed s)) + r \<le> k)"

text \<open>A stream that is open and idle, with the budget \<open>2 ^ 54\<close> and no call cap.\<close>

definition open_at_2_54 :: "('a, 'q, 'e) resource_stream \<Rightarrow> bool" where
  "open_at_2_54 s = (\<not> ended s \<and> \<not> reading s \<and> resultsToSend s = Fin (2 ^ 54) \<and>
     maxApiCalls s = Infinity)"

subsection \<open>Example inputs\<close>

type_synonym test_stream = "(string, string, string) resource_stream"

type_synonym test_event = "(string, string, string, string) event"

definition example_args :: "int \<Rightarrow> int \<Rightarrow> string parsed_arguments" where
  "example_args n k = \<lparr>args_maxApiCalls = n, args_maxResults = k, args_query = Some []\<rparr>"

definition example_stream :: "int \<Rightarrow> int \<Rightarrow> test_stream" where
  "example_stream n k = constructor (example_args n k)"

text \<open>A successful response with the cursor \<^verbatim>\<open>{}\<close> and no trailing values.\<close>

definition page :: "string list \<Rightarrow> test_event" where
  "page results = Respond None results (Some []) []"

text \<open>\<open>n\<close> times: the stream library pulls, and the response is the one item \<^verbatim>\<open>a\<close>.\<close>

definition single_pages :: "nat \<Rightarrow> test_event list" where
  "single_pages n = concat (replicate n [Pull Returns, page [''a'']])"

section \<open>Properties\<close>

subsection \<open>Numbers\<close>

declare ulp.simps [simp del]

lemma ulp_small: "m < 2 ^ 53 \<Longrightarrow> ulp m = 1"
  by (simp add: ulp.simps)

lemma nearest_double_nat_exact: "m \<le> 2 ^ 53 \<Longrightarrow> nearest_double_nat m = m"
proof (cases "m < 2 ^ 53")
  case True
  then show ?thesis by (simp add: nearest_double_nat_def ulp_small)
next
  case False
  assume "m \<le> 2 ^ 53"
  with False have m: "m = 2 ^ 53" by simp
  have "ulp (2 ^ 53) = 2" by (simp add: ulp.simps)
  then show ?thesis by (simp add: m nearest_double_nat_def)
qed

lemma nearest_double_exact: "0 \<le> x \<Longrightarrow> x \<le> 2 ^ 53 \<Longrightarrow> nearest_double x = x"
proof -
  assume x: "0 \<le> x" "x \<le> 2 ^ 53"
  then have "nat x \<le> 2 ^ 53" by (simp add: nat_le_iff)
  then have "nearest_double_nat (nat x) = nat x" by (rule nearest_double_nat_exact)
  with x show ?thesis by (simp add: nearest_double_def)
qed

lemma increment_exact: "m < 2 ^ 53 \<Longrightarrow> increment m = Suc m"
  by (simp add: increment_def nearest_double_nat_exact)

text \<open>One less than \<open>2 ^ 54\<close> is no double: the nearest one is \<open>2 ^ 54\<close> again.\<close>

lemma nearest_double_below_2_54: "nearest_double (2 ^ 54 - 1) = 2 ^ 54"
  by (simp add: nearest_double_def nearest_double_nat_def ulp.simps)

lemmas nearest_double_below_2_54_numeral = nearest_double_below_2_54 [simplified]

text \<open>So is \<open>2 ^ 53 + 1\<close>: of its two neighbours, \<open>2 ^ 53\<close> is the even one.\<close>

lemma nearest_double_above_2_53: "nearest_double (2 ^ 53 + 1) = 2 ^ 53"
  by (simp add: nearest_double_def nearest_double_nat_def ulp.simps)

lemmas nearest_double_above_2_53_numeral = nearest_double_above_2_53 [simplified]

text \<open>At \<open>2 ^ 53\<close> the counter stays where it is.\<close>

lemma increment_stalls: "increment (2 ^ 53) = 2 ^ 53"
  by (simp add: increment_def nearest_double_nat_def ulp.simps)

subsection \<open>Pushing and the emission loop\<close>

lemma push_fields [simp]:
  "pushed (fst (push c s x)) = pushed s @ [x]"
  "maxApiCalls (fst (push c s x)) = maxApiCalls s"
  "nextQuery (fst (push c s x)) = nextQuery s"
  "reading (fst (push c s x)) = reading s"
  "requestsMade (fst (push c s x)) = requestsMade s"
  "resultsToSend (fst (push c s x)) = resultsToSend s"
  "destroyedWith (fst (push c s x)) = destroyedWith s"
  "requests (fst (push c s x)) = requests s"
  "immediates (fst (push c s x)) = immediates s"
  "outstanding (fst (push c s x)) = outstanding s"
  "ended (fst (push c s x)) = (ended s \<or> snd (c (pushed s @ [x])))"
  by (simp_all add: push_def end_stream_def Let_def)

lemma emit_fields [simp]:
  "maxApiCalls (fst (emit c s m xs)) = maxApiCalls s"
  "nextQuery (fst (emit c s m xs)) = nextQuery s"
  "reading (fst (emit c s m xs)) = reading s"
  "requestsMade (fst (emit c s m xs)) = requestsMade s"
  "resultsToSend (fst (emit c s m xs)) = resultsToSend s"
  "destroyedWith (fst (emit c s m xs)) = destroyedWith s"
  "requests (fst (emit c s m xs)) = requests s"
  "immediates (fst (emit c s m xs)) = immediates s"
  "outstanding (fst (emit c s m xs)) = outstanding s"
  by (induction xs arbitrary: s m; simp)+

lemma emit_ended [simp]: "ended s \<Longrightarrow> emit c s m xs = (s, m)"
  by (cases xs) simp_all

lemma emit_prefix: "\<exists>ys. prefix ys xs \<and> pushed (fst (emit c s m xs)) = pushed s @ ys"
proof (induction xs arbitrary: s m)
  case Nil
  then show ?case by simp
next
  case (Cons x xs)
  show ?case
  proof (cases "ended s")
    case True
    then show ?thesis by simp
  next
    case False
    from Cons.IH [of "fst (push c s x)" "snd (push c s x)"]
    obtain ys where "prefix ys xs" "pushed (fst (emit c (fst (push c s x)) (snd (push c s x)) xs)) = (pushed s @ [x]) @ ys"
      by auto
    then have "prefix (x # ys) (x # xs) \<and> pushed (fst (emit c s m (x # xs))) = pushed s @ (x # ys)"
      using False by simp
    then show ?thesis by blast
  qed
qed

lemma emit_endCalls_mono: "endCalls s \<le> endCalls (fst (emit c s m xs))"
proof (induction xs arbitrary: s m)
  case Nil
  then show ?case by simp
next
  case (Cons x xs)
  have "endCalls s \<le> endCalls (fst (push c s x))"
    by (simp add: push_def Let_def end_stream_def)
  with Cons [of "fst (push c s x)" "snd (push c s x)"] show ?case
    by (cases "ended s") auto
qed


text \<open>The handler, on an error and on a success, field by field.\<close>

lemma handler_error: "handler c s (Some e) rs nq ex = destroy s e"
  by (simp add: handler_def)

lemma push_upd:
  "push c (s\<lparr>nextQuery := nq, resultsToSend := b\<rparr>) x =
     ((fst (push c s x))\<lparr>nextQuery := nq, resultsToSend := b\<rparr>, snd (push c s x))"
  by (simp add: push_def Let_def end_stream_def)

lemma emit_upd:
  "emit c (s\<lparr>nextQuery := nq, resultsToSend := b\<rparr>) m xs =
     ((fst (emit c s m xs))\<lparr>nextQuery := nq, resultsToSend := b\<rparr>, snd (emit c s m xs))"
  by (induction xs arbitrary: s m) (simp_all add: push_upd)

lemma handler_ok:
  "requestsMade (handler c s None rs nq ex) = increment (requestsMade s)"
  "resultsToSend (handler c s None rs nq ex) = budget_after (resultsToSend s) rs"
  "nextQuery (handler c s None rs nq ex) = nq"
  "reading (handler c s None rs nq ex) = False"
  "requests (handler c s None rs nq ex) = requests s"
  "destroyedWith (handler c s None rs nq ex) = destroyedWith s"
  "outstanding (handler c s None rs nq ex) = outstanding s"
  "maxApiCalls (handler c s None rs nq ex) = maxApiCalls s"
  "pushed (handler c s None rs nq ex) = pushed (fst (emit c s True (retained (resultsToSend s) rs)))"
  "ended (handler c s None rs nq ex) =
     (ended (fst (emit c s True (retained (resultsToSend s) rs))) \<or> \<not> truthy nq \<or>
      less_than_one (budget_after (resultsToSend s) rs) \<or>
      at_least (increment (requestsMade s)) (maxApiCalls s))"
  "immediates (handler c s None rs nq ex) =
     (if snd (emit c s True (retained (resultsToSend s) rs)) \<and> \<not> ended (handler c s None rs nq ex)
      then Suc (immediates s) else immediates s)"
  "endCalls (handler c s None rs nq ex) =
     (if \<not> truthy nq \<or> less_than_one (budget_after (resultsToSend s) rs) \<or>
         at_least (increment (requestsMade s)) (maxApiCalls s)
      then Suc (endCalls (fst (emit c s True (retained (resultsToSend s) rs))))
      else endCalls (fst (emit c s True (retained (resultsToSend s) rs))))"
  by (simp_all add: handler_def Let_def end_stream_def emit_upd)

lemma handler_pushed_prefix:
  "\<exists>ys. prefix ys (retained (resultsToSend s) rs) \<and> pushed (handler c s None rs nq ex) = pushed s @ ys"
  using emit_prefix [of "retained (resultsToSend s) rs" c s True] by (simp add: handler_ok)

text \<open>When the handler ends the stream, it has called \<^verbatim>\<open>super.end\<close>.\<close>

lemma handler_ends_calls_end:
  "\<not> truthy nq \<or> less_than_one (budget_after (resultsToSend s) rs) \<or>
     at_least (increment (requestsMade s)) (maxApiCalls s) \<Longrightarrow>
   endCalls s < endCalls (handler c s None rs nq ex)"
  using emit_endCalls_mono [of s c True "retained (resultsToSend s) rs"]
  by (simp add: handler_ok)

subsection \<open>Traces\<close>

lemma run_Nil [simp]: "run c s [] = s"
  by (simp add: run_def)

lemma run_Cons [simp]: "run c s (ev # evs) = run c (step c s ev) evs"
  by (simp add: run_def)

lemma run_append: "run c s (evs @ evs') = run c (run c s evs) evs'"
  by (simp add: run_def)

text \<open>The branches of \<^verbatim>\<open>_read\<close>.\<close>

lemma read_reading: "reading s \<Longrightarrow> read s oc = (s, None)"
  by (simp add: read_def)

lemma read_idle_returns:
  "\<not> reading s \<Longrightarrow> read s Returns =
     (s\<lparr>reading := True, requests := requests s @ [nextQuery s],
        outstanding := Suc (outstanding s)\<rparr>, None)"
  by (simp add: read_def Let_def)

text \<open>Every event keeps \<open>flight_ok\<close>.\<close>

lemma flight_ok_constructor: "flight_ok (constructor args)"
  by (simp add: flight_ok_def constructor_def)

lemma flight_ok_step: "flight_ok s \<Longrightarrow> flight_ok (step c s ev)"
proof (cases ev)
  case (Pull oc)
  assume "flight_ok s"
  then show ?thesis using Pull
    by (cases oc) (auto simp: flight_ok_def read_def Let_def destroy_def)
next
  case (Tick oc)
  assume "flight_ok s"
  then show ?thesis using Tick by (cases oc) (auto simp: flight_ok_def read_def Let_def)
next
  case (Respond err rs nq ex)
  assume "flight_ok s"
  then show ?thesis using Respond
    by (cases err) (auto simp: flight_ok_def handler_ok handler_error destroy_def)
next
  case End
  assume "flight_ok s"
  then show ?thesis using End by (simp add: flight_ok_def end_stream_def)
qed

lemma flight_ok_run: "flight_ok s \<Longrightarrow> flight_ok (run c s evs)"
  by (induction evs arbitrary: s) (simp_all add: flight_ok_step)

text \<open>With \<open>reading\<close> set and nothing outstanding, no event emits, destroys or fetches.\<close>

lemma stuck_step:
  "reading s \<Longrightarrow> outstanding s = 0 \<Longrightarrow>
   reading (step c s ev) \<and> outstanding (step c s ev) = 0 \<and> pushed (step c s ev) = pushed s \<and>
   destroyedWith (step c s ev) = destroyedWith s \<and> requests (step c s ev) = requests s"
  by (cases ev) (simp_all add: read_def end_stream_def)

lemma stuck_run:
  "reading s \<Longrightarrow> outstanding s = 0 \<Longrightarrow>
   pushed (run c s evs) = pushed s \<and> destroyedWith (run c s evs) = destroyedWith s \<and>
   requests (run c s evs) = requests s"
proof (induction evs arbitrary: s)
  case Nil
  then show ?case by simp
next
  case (Cons ev evs)
  from stuck_step [OF Cons.prems, of c ev] Cons.IH [of "step c s ev"]
  show ?case by simp
qed

text \<open>Every event keeps \<open>within_budget\<close>, as long as the budget is in the exact range.\<close>

lemma within_budget_Fin:
  "within_budget k s \<Longrightarrow> \<exists>r. resultsToSend s = Fin r \<and> 0 \<le> r \<and> int (length (pushed s)) + r \<le> k"
  by (auto simp: within_budget_def split: jsnum.splits)

lemma budget_after_exact:
  "0 \<le> r \<Longrightarrow> r \<le> 2 ^ 53 \<Longrightarrow>
   budget_after (Fin r) rs = Fin (r - int (length (take (nat r) rs)))"
proof -
  assume r: "0 \<le> r" "r \<le> 2 ^ 53"
  have "int (length (take (nat r) rs)) \<le> r" using r by simp
  then have "0 \<le> r - int (length (take (nat r) rs))" "r - int (length (take (nat r) rs)) \<le> 2 ^ 53"
    using r by simp_all
  then show ?thesis by (simp add: splice0_def nearest_double_exact)
qed

lemma within_budget_handler:
  assumes "within_budget k s" and "k \<le> 2 ^ 53"
  shows "within_budget k (handler c s err rs nq ex)"
proof (cases err)
  case (Some e)
  with assms show ?thesis by (simp add: handler_error destroy_def within_budget_def split: jsnum.splits)
next
  case None
  from within_budget_Fin [OF assms(1)] obtain r where
    r: "resultsToSend s = Fin r" "0 \<le> r" "int (length (pushed s)) + r \<le> k"
    by blast
  then have r53: "r \<le> 2 ^ 53" using assms(2) by simp
  from handler_pushed_prefix [of s rs c nq ex] obtain ys where
    ys: "prefix ys (take (nat r) rs)" "pushed (handler c s None rs nq ex) = pushed s @ ys"
    using r by (auto simp: splice0_def)
  from ys(1) have l: "length ys \<le> length (take (nat r) rs)" by (rule prefix_length_le)
  have b: "resultsToSend (handler c s None rs nq ex) = Fin (r - int (length (take (nat r) rs)))"
    using r r53 budget_after_exact [of r rs] by (simp add: handler_ok del: budget_after.simps)
  have "0 \<le> r - int (length (take (nat r) rs))" using r by simp
  moreover have "int (length (pushed s @ ys)) + (r - int (length (take (nat r) rs))) \<le> k"
    using l r by (simp add: min_def split: if_splits)
  ultimately show ?thesis using None b ys(2) by (simp add: within_budget_def)
qed

lemma within_budget_step: "within_budget k s \<Longrightarrow> k \<le> 2 ^ 53 \<Longrightarrow> within_budget k (step c s ev)"
proof (cases ev)
  case (Respond err rs nq ex)
  assume a: "within_budget k s" and k: "k \<le> 2 ^ 53"
  then have "within_budget k (s\<lparr>outstanding := outstanding s - 1\<rparr>)"
    by (simp add: within_budget_def split: jsnum.splits)
  from within_budget_handler [OF this k, of c err rs nq ex] a show ?thesis using Respond by simp
qed (auto simp: within_budget_def read_def Let_def end_stream_def destroy_def
       split: call_outcome.splits jsnum.splits)

lemma within_budget_run: "within_budget k s \<Longrightarrow> k \<le> 2 ^ 53 \<Longrightarrow> within_budget k (run c s evs)"
  by (induction evs arbitrary: s) (simp_all add: within_budget_step)

lemma within_budget_constructor:
  "0 \<le> k \<Longrightarrow> args_maxResults args = k \<Longrightarrow> within_budget k (constructor args)"
  by (auto simp: constructor_def within_budget_def)

text \<open>
  With the budget \<open>2 ^ 54\<close>, a page of one item is pushed and leaves the budget where it
  was, as often as one likes.
\<close>

lemma single_page_round:
  assumes "open_at_2_54 s"
  shows "open_at_2_54 (run greedy s [Pull Returns, page [''a'']]) \<and>
         pushed (run greedy s [Pull Returns, page [''a'']]) = pushed s @ [''a'']"
  using assms
  by (simp add: open_at_2_54_def read_def handler_def Let_def page_def push_def greedy_def
      splice0_def nearest_double_below_2_54_numeral)

lemma single_pages_run:
  "open_at_2_54 s \<Longrightarrow>
   open_at_2_54 (run greedy s (single_pages n)) \<and>
   length (pushed (run greedy s (single_pages n))) = length (pushed s) + n"
proof (induction n arbitrary: s)
  case 0
  then show ?case by (simp add: single_pages_def)
next
  case (Suc n)
  have e: "single_pages (Suc n) = [Pull Returns, page [''a'']] @ single_pages n"
    by (simp add: single_pages_def)
  from single_page_round [OF Suc.prems]
  have a: "open_at_2_54 (run greedy s [Pull Returns, page [''a'']])"
    and b: "pushed (run greedy s [Pull Returns, page [''a'']]) = pushed s @ [''a'']"
    by blast+
  from Suc.IH [OF a] b show ?case
    by (simp only: e run_append) simp
qed

lemma open_at_2_54_example: "open_at_2_54 (example_stream (-1) (2 ^ 54))"
  by (simp add: open_at_2_54_def example_stream_def example_args_def constructor_def)

lemmas eval_simps = run_def example_stream_def example_args_def page_def constructor_def read_def
  handler_def Let_def end_stream_def destroy_def push_def splice0_def greedy_def ends_on_def
  increment_exact nearest_double_exact nearest_double_below_2_54_numeral
  nearest_double_above_2_53_numeral

section \<open>The claims\<close>

subsection \<open>C1: the cap on delivered items\<close>

text \<open>
  Claim C1 as it is stated, for every \<^verbatim>\<open>maxResults = k\<close> with \<open>0 \<le> k\<close>, fails above
  \<open>2 ^ 53\<close>, where the subtraction \<^verbatim>\<open>this._resultsToSend -= results.length\<close> is not exact.
  With \<open>k = 2 ^ 53 + 2\<close> a page of one item takes 2 off the budget. With \<open>k = 2 ^ 54\<close> a
  page of one item is pushed and the budget after it is \<open>2 ^ 54\<close> still: it is not
  decremented by the number retained. The stream stays open, and \<open>2 ^ 54 + 1\<close> such
  pages push \<open>2 ^ 54 + 1\<close> items.
\<close>

theorem budget_beyond_2_53_counterexample:
  "resultsToSend (run greedy (example_stream (-1) (2 ^ 53 + 2)) [Pull Returns, page [''a'']]) =
     Fin (2 ^ 53) \<and>
   resultsToSend (run greedy (example_stream (-1) (2 ^ 54)) [Pull Returns, page [''a'']]) =
     Fin (2 ^ 54) \<and>
   pushed (run greedy (example_stream (-1) (2 ^ 54)) [Pull Returns, page [''a'']]) = [''a''] \<and>
   \<not> ended (run greedy (example_stream (-1) (2 ^ 54)) [Pull Returns, page [''a'']]) \<and>
   \<not> int (length (pushed (run greedy (example_stream (-1) (2 ^ 54))
          (single_pages (2 ^ 54 + 1))))) \<le> 2 ^ 54"
proof -
  have a: "resultsToSend (run greedy (example_stream (-1) (2 ^ 54)) [Pull Returns, page [''a'']]) =
     Fin (2 ^ 54)"
    by (simp add: eval_simps)
  have b: "pushed (run greedy (example_stream (-1) (2 ^ 54)) [Pull Returns, page [''a'']]) = [''a'']"
    by (simp add: eval_simps)
  have c: "\<not> ended (run greedy (example_stream (-1) (2 ^ 54)) [Pull Returns, page [''a'']])"
    by (simp add: eval_simps)
  have "length (pushed (run greedy (example_stream (-1) (2 ^ 54)) (single_pages (2 ^ 54 + 1)))) =
     length (pushed (example_stream (-1) (2 ^ 54))) + (2 ^ 54 + 1)"
    by (rule conjunct2 [OF single_pages_run [OF open_at_2_54_example]])
  moreover have "pushed (example_stream (-1) (2 ^ 54)) = []"
    by (simp add: example_stream_def constructor_def)
  ultimately have d: "\<not> int (length (pushed (run greedy (example_stream (-1) (2 ^ 54))
          (single_pages (2 ^ 54 + 1))))) \<le> 2 ^ 54"
    by simp
  have e: "resultsToSend (run greedy (example_stream (-1) (2 ^ 53 + 2)) [Pull Returns, page [''a'']]) =
     Fin (2 ^ 53)"
    by (simp add: eval_simps)
  from e a b c d show ?thesis by blast
qed

text \<open>
  Claim C1, amended. For every integer \<^verbatim>\<open>maxResults = k\<close> with \<open>0 \<le> k \<le> 2 ^ 53\<close>, whatever
  events happen and whatever the consumer does, at most \<open>k\<close> items are pushed downstream
  in total. In every reachable state \<open>s\<close> the budget \<^verbatim>\<open>_resultsToSend\<close> is a number \<open>r\<close> that
  is not negative; a successful response in \<open>s\<close> pushes a prefix of the first \<open>r\<close> results
  (all of them unless the consumer ends the stream), takes the number of retained results
  off the budget, and when the budget left is below 1 it terminates the sequence: the
  flag \<^verbatim>\<open>_ended\<close> is set and \<^verbatim>\<open>super.end\<close> has been called.
\<close>

theorem maxResults_caps_delivery:
  assumes "0 \<le> k" and "k \<le> 2 ^ 53" and "args_maxResults args = k"
    and "s = run c (constructor args) evs"
    and "s' = handler c s None results nq otherArgs"
  shows "int (length (pushed s)) \<le> k \<and>
         (\<exists>r ys. resultsToSend s = Fin r \<and> 0 \<le> r \<and>
            prefix ys (take (nat r) results) \<and> pushed s' = pushed s @ ys \<and>
            resultsToSend s' = Fin (r - int (length (take (nat r) results))) \<and>
            (r - int (length (take (nat r) results)) < 1 \<longrightarrow>
               ended s' \<and> endCalls s < endCalls s')) \<and>
         int (length (pushed s')) \<le> k"
proof -
  have wb: "within_budget k s"
    using assms(1-4) by (simp add: within_budget_run within_budget_constructor)
  from within_budget_Fin [OF wb] obtain r where
    r: "resultsToSend s = Fin r" "0 \<le> r" "int (length (pushed s)) + r \<le> k"
    by blast
  then have r53: "r \<le> 2 ^ 53" using assms(2) by simp
  from handler_pushed_prefix [of s results c nq otherArgs] obtain ys where
    ys: "prefix ys (take (nat r) results)" "pushed s' = pushed s @ ys"
    using r assms(5) by (auto simp: splice0_def)
  have ba: "budget_after (resultsToSend s) results = Fin (r - int (length (take (nat r) results)))"
    using r r53 by (simp add: budget_after_exact del: budget_after.simps)
  have b: "resultsToSend s' = Fin (r - int (length (take (nat r) results)))"
    using ba assms(5) by (simp add: handler_ok)
  have e: "r - int (length (take (nat r) results)) < 1 \<longrightarrow> ended s' \<and> endCalls s < endCalls s'"
  proof
    assume "r - int (length (take (nat r) results)) < 1"
    then have l: "less_than_one (budget_after (resultsToSend s) results)" using ba by simp
    then have "ended s'" using assms(5) by (simp add: handler_ok)
    moreover have "endCalls s < endCalls s'"
      using handler_ends_calls_end [of nq s results c otherArgs] l assms(5) by blast
    ultimately show "ended s' \<and> endCalls s < endCalls s'" by blast
  qed
  have "within_budget k s'"
    using wb assms(2,5) by (simp add: within_budget_handler)
  from within_budget_Fin [OF this] have l: "int (length (pushed s')) \<le> k" by auto
  from r ys b e have "\<exists>r ys. resultsToSend s = Fin r \<and> 0 \<le> r \<and>
            prefix ys (take (nat r) results) \<and> pushed s' = pushed s @ ys \<and>
            resultsToSend s' = Fin (r - int (length (take (nat r) results))) \<and>
            (r - int (length (take (nat r) results)) < 1 \<longrightarrow>
               ended s' \<and> endCalls s < endCalls s')"
    by blast
  with r l show ?thesis by simp
qed

text \<open>
  An instance: with \<^verbatim>\<open>maxResults = 2\<close>, a first page \<^verbatim>\<open>[a, b, c]\<close> delivers \<^verbatim>\<open>a\<close> and \<^verbatim>\<open>b\<close>,
  leaves the budget 0 and ends the stream with one call of \<^verbatim>\<open>super.end\<close>.
\<close>

theorem maxResults_caps_delivery_witness:
  "(0::int) \<le> 2 \<and> (2::int) \<le> 2 ^ 53 \<and> args_maxResults (example_args (-1) 2) = 2 \<and>
   pushed (handler greedy (run greedy (example_stream (-1) 2) [Pull Returns :: test_event])
     None [''a'', ''b'', ''c''] (Some []) ([]::string list)) = [''a'', ''b''] \<and>
   int (length (pushed (handler greedy (run greedy (example_stream (-1) 2) [Pull Returns :: test_event])
     None [''a'', ''b'', ''c''] (Some []) ([]::string list)))) \<le> 2 \<and>
   resultsToSend (handler greedy (run greedy (example_stream (-1) 2) [Pull Returns :: test_event])
     None [''a'', ''b'', ''c''] (Some []) ([]::string list)) = Fin 0 \<and>
   ended (handler greedy (run greedy (example_stream (-1) 2) [Pull Returns :: test_event])
     None [''a'', ''b'', ''c''] (Some []) ([]::string list)) \<and>
   endCalls (handler greedy (run greedy (example_stream (-1) 2) [Pull Returns :: test_event])
     None [''a'', ''b'', ''c''] (Some []) ([]::string list)) = 1"
proof -
  have h1: "(0::int) \<le> 2" by simp
  have h2: "(2::int) \<le> 2 ^ 53" by simp
  have h3: "args_maxResults (example_args (-1) 2) = 2" by (simp add: example_args_def)
  have h4: "run greedy (example_stream (-1) 2) [Pull Returns :: test_event] =
            run greedy (constructor (example_args (-1) 2)) [Pull Returns]"
    by (simp add: example_stream_def)
  from maxResults_caps_delivery [OF h1 h2 h3 h4 refl,
      where results = "[''a'', ''b'', ''c'']" and nq = "Some []" and otherArgs = "[]::string list"]
  show ?thesis by (simp add: eval_simps)
qed

subsection \<open>C2: the cap on calls of the request function\<close>

text \<open>
  Claim C2 at a failing input, \<^verbatim>\<open>maxApiCalls = 2\<close>. The first response schedules a deferred
  \<^verbatim>\<open>_read\<close>. The stream library pulls, and the second response arrives before that
  callback runs: the counter is 2, the stream is ended, and the callback is still
  pending. It runs \<^verbatim>\<open>_read\<close>, which tests \<^verbatim>\<open>_reading\<close> only and not \<^verbatim>\<open>_ended\<close>: the request
  function is called a third time, and its response makes the counter 3.
\<close>

theorem stale_deferred_read_exceeds_cap:
  "ended (run greedy (example_stream 2 (-1))
     [Pull Returns, page [''a''], Pull Returns, page [''b'']]) \<and>
   requestsMade (run greedy (example_stream 2 (-1))
     [Pull Returns, page [''a''], Pull Returns, page [''b'']]) = 2 \<and>
   immediates (run greedy (example_stream 2 (-1))
     [Pull Returns, page [''a''], Pull Returns, page [''b'']]) = 1 \<and>
   length (requests (run greedy (example_stream 2 (-1))
     [Pull Returns, page [''a''], Pull Returns, page [''b''], Tick Returns])) = 3 \<and>
   requestsMade (run greedy (example_stream 2 (-1))
     [Pull Returns, page [''a''], Pull Returns, page [''b''], Tick Returns, page [''c'']]) = 3 \<and>
   \<not> int (requestsMade (run greedy (example_stream 2 (-1))
     [Pull Returns, page [''a''], Pull Returns, page [''b''], Tick Returns, page [''c'']])) \<le> 2"
  by (simp add: eval_simps)

subsection \<open>C3: the end of the pages\<close>




subsection \<open>C4: one fetch at a time\<close>

text \<open>
  Claim C4. In every reachable state at most one call of the request function is
  outstanding, and while one is, \<^verbatim>\<open>_reading\<close> is set and a pull leaves the state as it is.
  In any state \<open>t\<close> with \<^verbatim>\<open>_reading\<close> set, \<^verbatim>\<open>_read\<close> changes nothing and calls nothing.
\<close>

theorem one_fetch_outstanding:
  assumes "s = run c (constructor args) evs"
  shows "outstanding s \<le> 1 \<and>
         (0 < outstanding s \<longrightarrow> reading s \<and> step c s (Pull outcome) = s) \<and>
         (reading t \<longrightarrow> read t outcome = (t, None))"
proof -
  have "flight_ok s" using assms by (simp add: flight_ok_run flight_ok_constructor)
  then have a: "outstanding s \<le> 1" and b: "0 < outstanding s \<longrightarrow> reading s"
    by (auto simp: flight_ok_def)
  have c: "reading s \<longrightarrow> step c s (Pull outcome) = s" by (simp add: read_reading)
  have d: "reading t \<longrightarrow> read t outcome = (t, None)" by (simp add: read_reading)
  from a b c d show ?thesis by blast
qed

theorem one_fetch_outstanding_witness:
  "outstanding (run greedy (example_stream (-1) (-1)) [Pull Returns, Pull Returns, Tick Returns :: test_event]) = 1 \<and>
   reading (run greedy (example_stream (-1) (-1)) [Pull Returns, Pull Returns, Tick Returns :: test_event]) \<and>
   requests (run greedy (example_stream (-1) (-1)) [Pull Returns, Pull Returns, Tick Returns :: test_event]) = [Some []] \<and>
   step greedy (run greedy (example_stream (-1) (-1)) [Pull Returns, Pull Returns, Tick Returns :: test_event])
     (Pull Returns) =
   run greedy (example_stream (-1) (-1)) [Pull Returns, Pull Returns, Tick Returns :: test_event]"
proof -
  define S where "S = run greedy (example_stream (-1) (-1)) [Pull Returns, Pull Returns, Tick Returns :: test_event]"
  have h: "S = run greedy (constructor (example_args (-1) (-1))) [Pull Returns, Pull Returns, Tick Returns]"
    by (simp add: S_def example_stream_def)
  have o: "outstanding S = 1" by (simp add: S_def eval_simps)
  have r: "requests S = [Some []]" by (simp add: S_def eval_simps)
  from one_fetch_outstanding [OF h, where outcome = Returns and t = S] o r
  have "outstanding S = 1 \<and> reading S \<and> requests S = [Some []] \<and> step greedy S (Pull Returns) = S"
    by simp
  then show ?thesis by (simp only: S_def)
qed

subsection \<open>C5: the consumer ends the stream during the emission\<close>

text \<open>
  Claim C5 at a failing input. The first response schedules a deferred \<^verbatim>\<open>_read\<close>. The
  stream library pulls, and the second response, \<^verbatim>\<open>[b, c]\<close>, arrives before that callback
  runs; the consumer calls \<^verbatim>\<open>end()\<close> when it sees \<^verbatim>\<open>b\<close>. The loop stops there: \<^verbatim>\<open>c\<close> is not
  pushed, and this handler schedules nothing. The callback of the first response is
  still pending: it runs \<^verbatim>\<open>_read\<close>, which does not test \<^verbatim>\<open>_ended\<close>, and the request function
  is called a third time, after the consumer has ended the stream.
\<close>

theorem stale_deferred_read_after_consumer_end:
  "pushed (run (ends_on ''b'') (example_stream (-1) (-1))
     [Pull Returns, page [''a''], Pull Returns, page [''b'', ''c'']]) = [''a'', ''b''] \<and>
   ended (run (ends_on ''b'') (example_stream (-1) (-1))
     [Pull Returns, page [''a''], Pull Returns, page [''b'', ''c'']]) \<and>
   immediates (run (ends_on ''b'') (example_stream (-1) (-1))
     [Pull Returns, page [''a''], Pull Returns, page [''b'', ''c'']]) = 1 \<and>
   requests (run (ends_on ''b'') (example_stream (-1) (-1))
     [Pull Returns, page [''a''], Pull Returns, page [''b'', ''c'']]) = [Some [], Some []] \<and>
   requests (run (ends_on ''b'') (example_stream (-1) (-1))
     [Pull Returns, page [''a''], Pull Returns, page [''b'', ''c''], Tick Returns]) =
     [Some [], Some [], Some []] \<and>
   pushed (run (ends_on ''b'') (example_stream (-1) (-1))
     [Pull Returns, page [''a''], Pull Returns, page [''b'', ''c''], Tick Returns, page [''d'']]) =
     [''a'', ''b'']"
  by (simp add: eval_simps)

subsection \<open>C6: a response with an error\<close>

text \<open>
  Claim C6. The handler called with an error does nothing but \<^verbatim>\<open>destroy(err)\<close>. When this
  happens to the outstanding call in a reachable state, no \<^verbatim>\<open>destroy\<close> has happened before,
  the cursor, the budget and the counter are unchanged, nothing is pushed or scheduled,
  and whatever events follow, that error remains the only one given to \<^verbatim>\<open>destroy\<close>, no
  item is pushed and the request function is not called again.
\<close>

theorem fetch_error_destroys:
  assumes "s = run c (constructor args) evs" and "0 < outstanding s"
    and "s' = step c s (Respond (Some e) results nq otherArgs)"
  shows "handler c t (Some e) results nq otherArgs = destroy t e \<and>
         destroyedWith s = [] \<and> destroyedWith s' = [e] \<and> pushed s' = pushed s \<and>
         nextQuery s' = nextQuery s \<and> resultsToSend s' = resultsToSend s \<and>
         requestsMade s' = requestsMade s \<and> immediates s' = immediates s \<and>
         destroyedWith (run c s' evs') = [e] \<and> pushed (run c s' evs') = pushed s \<and>
         requests (run c s' evs') = requests s"
proof -
  have f: "flight_ok s" using assms(1) by (simp add: flight_ok_run flight_ok_constructor)
  with assms(2) have o: "outstanding s = 1" and r: "reading s" and d: "destroyedWith s = []"
    by (auto simp: flight_ok_def)
  have s': "s' = destroy (s\<lparr>outstanding := 0\<rparr>) e"
    using assms(3) o by (simp add: handler_error)
  then have a: "destroyedWith s' = [e]" "pushed s' = pushed s" "nextQuery s' = nextQuery s"
    "resultsToSend s' = resultsToSend s" "requestsMade s' = requestsMade s"
    "immediates s' = immediates s" "requests s' = requests s"
    "reading s'" "outstanding s' = 0"
    using d r by (simp_all add: destroy_def)
  from stuck_run [OF a(8) a(9), of c evs'] a
  have b: "destroyedWith (run c s' evs') = [e]" "pushed (run c s' evs') = pushed s"
    "requests (run c s' evs') = requests s" by simp_all
  have h: "handler c t (Some e) results nq otherArgs = destroy t e" by (rule handler_error)
  from h d a b show ?thesis by blast
qed

theorem fetch_error_destroys_witness:
  "outstanding (run greedy (example_stream (-1) (-1)) [Pull Returns, page [''a''], Tick Returns]) = 1 \<and>
   destroyedWith (run greedy (example_stream (-1) (-1))
     [Pull Returns, page [''a''], Tick Returns,
      Respond (Some ''err'') [''b''] (Some []) [], Pull Returns, Tick Returns, page [''c''], End]) = [''err''] \<and>
   pushed (run greedy (example_stream (-1) (-1))
     [Pull Returns, page [''a''], Tick Returns,
      Respond (Some ''err'') [''b''] (Some []) [], Pull Returns, Tick Returns, page [''c''], End]) = [''a'']"
proof -
  define S where "S = run greedy (example_stream (-1) (-1)) [Pull Returns, page [''a''], Tick Returns]"
  define S' where "S' = step greedy S (Respond (Some ''err'') [''b''] (Some []) ([]::string list))"
  have h1: "S = run greedy (constructor (example_args (-1) (-1))) [Pull Returns, page [''a''], Tick Returns]"
    by (simp add: S_def example_stream_def)
  have o: "outstanding S = 1" by (simp add: S_def eval_simps)
  then have h2: "0 < outstanding S" by simp
  have p: "pushed S = [''a'']" by (simp add: S_def eval_simps)
  from fetch_error_destroys [OF h1 h2 S'_def, where evs' = "[Pull Returns, Tick Returns, page [''c''], End]"] o p
  have "outstanding S = 1 \<and>
        destroyedWith (run greedy S' [Pull Returns, Tick Returns, page [''c''], End]) = [''err''] \<and>
        pushed (run greedy S' [Pull Returns, Tick Returns, page [''c''], End]) = [''a'']"
    by simp
  moreover have "run greedy (example_stream (-1) (-1))
     [Pull Returns, page [''a''], Tick Returns,
      Respond (Some ''err'') [''b''] (Some []) [], Pull Returns, Tick Returns, page [''c''], End] =
     run greedy S' [Pull Returns, Tick Returns, page [''c''], End]"
    unfolding S_def S'_def run_def by (simp only: foldl.simps)
  ultimately show ?thesis by (simp only: S_def)
qed

subsection \<open>C7: the request function throws\<close>

text \<open>
  Claim C7 at the input of the test "should destroy the stream if the request method
  throws": the exception leaves \<^verbatim>\<open>_read\<close>, \<^verbatim>\<open>destroy\<close> is not called and \<^verbatim>\<open>_reading\<close> stays
  set. The same happens when the deferred \<^verbatim>\<open>_read\<close> of an earlier response is the one
  that throws, whereas the same error reported to the handler is given to \<^verbatim>\<open>destroy\<close>.
  Only when the call comes from the stream library is the exception caught, by the
  library.
\<close>

theorem requestFn_throw_escapes_read:
  "snd (read (example_stream (-1) (-1)) (Throws ''Error.'')) = Some ''Error.'' \<and>
   destroyedWith (fst (read (example_stream (-1) (-1)) (Throws ''Error.''))) = [] \<and>
   reading (fst (read (example_stream (-1) (-1)) (Throws ''Error.''))) \<and>
   destroyedWith (run greedy (example_stream (-1) (-1))
     [Pull Returns, page [''a''], Tick (Throws ''Error.'')]) = [] \<and>
   reading (run greedy (example_stream (-1) (-1))
     [Pull Returns, page [''a''], Tick (Throws ''Error.'')]) \<and>
   destroyedWith (run greedy (example_stream (-1) (-1))
     [Pull Returns, Respond (Some ''Error.'') [] None ([]::string list)]) = [''Error.''] \<and>
   destroyedWith (run greedy (example_stream (-1) (-1))
     [Pull (Throws ''Error.'') :: test_event]) = [''Error.'']"
  by (simp add: eval_simps)

subsection \<open>C8: the trailing values of a response\<close>

text \<open>
  Claim C8 on the code: the state after the handler does not depend on the trailing
  values of the response. They are stored nowhere, so nothing can forward them.
\<close>

theorem handler_drops_otherArgs:
  "handler c s err results nq otherArgs = handler c s err results nq otherArgs'"
  by (simp add: handler_def)

text \<open>
  At the input of the test "should cache the rest of the callback arguments": after the
  response \<^verbatim>\<open>(null, [], {}, fakeRes, 10)\<close> the state is the one after \<^verbatim>\<open>(null, [], {})\<close>.
\<close>

theorem handler_drops_otherArgs_witness:
  "handler greedy (fst (read (example_stream (-1) (-1)) Returns)) None [] (Some [])
     [''fakeRes'', ''10''] =
   handler greedy (fst (read (example_stream (-1) (-1)) Returns)) None [] (Some [])
     ([]::string list)"
  using handler_drops_otherArgs [where otherArgs = "[''fakeRes'', ''10'']"] by blast

subsection \<open>C9: a pull after the end\<close>

text \<open>
  Claim C9 at a failing input. A response schedules a deferred \<^verbatim>\<open>_read\<close>; the consumer
  ends the stream before the callback runs; no fetch is in flight. The callback runs
  \<^verbatim>\<open>_read\<close> after the end: it is no no-op, it sets \<^verbatim>\<open>_reading\<close> and calls the request function.
\<close>

theorem deferred_read_after_end_fetches:
  "ended (run greedy (example_stream (-1) (-1)) [Pull Returns, page [''a''], End]) \<and>
   \<not> reading (run greedy (example_stream (-1) (-1)) [Pull Returns, page [''a''], End]) \<and>
   outstanding (run greedy (example_stream (-1) (-1)) [Pull Returns, page [''a''], End]) = 0 \<and>
   immediates (run greedy (example_stream (-1) (-1)) [Pull Returns, page [''a''], End]) = 1 \<and>
   requests (run greedy (example_stream (-1) (-1)) [Pull Returns, page [''a''], End]) = [Some []] \<and>
   requests (run greedy (example_stream (-1) (-1)) [Pull Returns, page [''a''], End, Tick Returns]) =
     [Some [], Some []] \<and>
   reading (run greedy (example_stream (-1) (-1)) [Pull Returns, page [''a''], End, Tick Returns]) \<and>
   outstanding (run greedy (example_stream (-1) (-1)) [Pull Returns, page [''a''], End, Tick Returns]) = 1 \<and>
   fst (read (run greedy (example_stream (-1) (-1)) [Pull Returns, page [''a''], End]) Returns) \<noteq>
     run greedy (example_stream (-1) (-1)) [Pull Returns, page [''a''], End]"
  by (simp add: eval_simps)

subsection \<open>C10: an empty page\<close>

text \<open>
  Claim C10. A successful response with no retained item, in a stream that has not
  ended, with a cursor that is present, a budget that is not below 1 and a counter that
  stays below the cap: \<^verbatim>\<open>more\<close> is still true after the loop, one deferred \<^verbatim>\<open>_read\<close> is
  scheduled, and the stream is neither ended nor reading.
\<close>

theorem empty_page_continues:
  assumes "\<not> ended s" and "truthy nq"
    and "retained (resultsToSend s) results = []"
    and "\<not> less_than_one (budget_after (resultsToSend s) results)"
    and "\<not> at_least (increment (requestsMade s)) (maxApiCalls s)"
    and "s' = handler c s None results nq otherArgs"
  shows "snd (emit c s True (retained (resultsToSend s) results)) \<and>
         immediates s' = Suc (immediates s) \<and> \<not> ended s' \<and>
         pushed s' = pushed s \<and> \<not> reading s' \<and> requests s' = requests s"
  using assms by (simp add: handler_ok)

theorem empty_page_continues_witness:
  "immediates (handler (\<lambda>h. (False, False))
     (fst (read (example_stream 5 5) Returns)) None [] (Some []) ([]::string list)) = 1 \<and>
   \<not> ended (handler (\<lambda>h. (False, False))
     (fst (read (example_stream 5 5) Returns)) None [] (Some []) ([]::string list)) \<and>
   requests (run (\<lambda>h. (False, False)) (example_stream 5 5) [Pull Returns, page [], Tick Returns]) =
     [Some [], Some []]"
proof -
  define S :: test_stream where "S = fst (read (example_stream 5 5) Returns)"
  have h1: "\<not> ended S" by (simp add: S_def eval_simps)
  have h2: "truthy (Some [] :: string cursor)" by simp
  have h3: "retained (resultsToSend S) ([]::string list) = []" by (simp add: S_def eval_simps)
  have h4: "\<not> less_than_one (budget_after (resultsToSend S) ([]::string list))"
    by (simp add: S_def eval_simps)
  have h5: "\<not> at_least (increment (requestsMade S)) (maxApiCalls S)" by (simp add: S_def eval_simps)
  have i: "immediates S = 0" by (simp add: S_def eval_simps)
  have r: "requests (run (\<lambda>h. (False, False)) (example_stream 5 5) [Pull Returns, page [], Tick Returns]) =
     [Some [], Some []]" by (simp add: eval_simps)
  from empty_page_continues [OF h1 h2 h3 h4 h5 refl,
      where c = "\<lambda>h. (False, False)" and otherArgs = "[]::string list"] i r
  have "immediates (handler (\<lambda>h. (False, False)) S None [] (Some []) ([]::string list)) = 1 \<and>
        \<not> ended (handler (\<lambda>h. (False, False)) S None [] (Some []) ([]::string list)) \<and>
        requests (run (\<lambda>h. (False, False)) (example_stream 5 5) [Pull Returns, page [], Tick Returns]) =
          [Some [], Some []]"
    by simp
  then show ?thesis unfolding S_def .
qed

end
